theory Spec2Isabelle
  imports Main
begin

section \<open>Python values\<close>

text \<open>
  A Python \<open>str\<close> is a sequence of Unicode code points, so it is a list of naturals
  (\<open>len\<close>, slicing and \<open>replace\<close> count code points). A Python \<open>bytes\<close> object is a
  list of 8-bit characters. ASCII literals are written through \<open>str\<close>.
\<close>

type_synonym pystr = "nat list"
type_synonym bytes = "char list"

definition str :: "string \<Rightarrow> pystr" where
  "str cs = map of_char cs"

text \<open>
  The arguments \<open>to\<close> and \<open>cc\<close> of \<open>generate_mail\<close> are inspected with
  \<open>isinstance\<close>: a string, a list, or something else (an integer, \<open>None\<close>). The elements
  of a list are strings, as the interface of the specification has them; the subject and
  the body are strings too.
\<close>

datatype pyval = PyStr pystr | PyList "pystr list" | PyInt int | PyNone

datatype error =
    AssertionError pystr
  | TypeError pystr
  | IndexError pystr
  | OSError pystr
  | UnicodeEncodeError
  | UnicodeDecodeError

section \<open>String operations of the Python library used by the source\<close>

text \<open>\<open>str(n)\<close> for a natural number: its decimal digits.\<close>

fun decimal :: "nat \<Rightarrow> pystr" where
  "decimal n = (if n < 10 then [48 + n] else decimal (n div 10) @ [48 + n mod 10])"

declare decimal.simps [simp del]

text \<open>
  \<open>s.encode('ascii', 'xmlcharrefreplace')\<close>: a code point below 128 is its own byte, any
  other code point \<open>c\<close> becomes the bytes of \<open>&#c;\<close> with \<open>c\<close> in decimal.
\<close>

definition xmlcharrefreplace :: "nat \<Rightarrow> pystr" where
  "xmlcharrefreplace c = str ''&#'' @ decimal c @ str '';''"

fun encode_ascii_xmlcharrefreplace :: "pystr \<Rightarrow> bytes" where
  "encode_ascii_xmlcharrefreplace [] = []"
| "encode_ascii_xmlcharrefreplace (c # cs) =
     (if c < 128 then [char_of c] else map char_of (xmlcharrefreplace c))
     @ encode_ascii_xmlcharrefreplace cs"

text \<open>
  \<open>b.decode()\<close>: strict UTF-8 decoding. The well-formed byte sequences are those of the
  Unicode standard (no overlong forms, no surrogates, nothing above U+10FFFF); anything
  else raises \<open>UnicodeDecodeError\<close>.
\<close>

definition cont :: "nat \<Rightarrow> bool" where
  "cont b = (128 \<le> b \<and> b \<le> 191)"

fun decode_utf8 :: "bytes \<Rightarrow> error + pystr" where
  "decode_utf8 [] = Inr []"
| "decode_utf8 (x # xs) =
     (let b0 = (of_char x :: nat) in
      if b0 < 128 then
        (case decode_utf8 xs of Inl e \<Rightarrow> Inl e | Inr r \<Rightarrow> Inr (b0 # r))
      else if 194 \<le> b0 \<and> b0 \<le> 223 then
        (case xs of
           y # ys \<Rightarrow>
             (let b1 = (of_char y :: nat) in
              if cont b1 then
                (case decode_utf8 ys of Inl e \<Rightarrow> Inl e
                 | Inr r \<Rightarrow> Inr (((b0 - 192) * 64 + (b1 - 128)) # r))
              else Inl UnicodeDecodeError)
         | _ \<Rightarrow> Inl UnicodeDecodeError)
      else if 224 \<le> b0 \<and> b0 \<le> 239 then
        (case xs of
           y # z # zs \<Rightarrow>
             (let b1 = (of_char y :: nat); b2 = (of_char z :: nat) in
              if cont b1 \<and> cont b2 \<and> (b0 = 224 \<longrightarrow> 160 \<le> b1) \<and> (b0 = 237 \<longrightarrow> b1 \<le> 159) then
                (case decode_utf8 zs of Inl e \<Rightarrow> Inl e
                 | Inr r \<Rightarrow> Inr (((b0 - 224) * 4096 + (b1 - 128) * 64 + (b2 - 128)) # r))
              else Inl UnicodeDecodeError)
         | _ \<Rightarrow> Inl UnicodeDecodeError)
      else if 240 \<le> b0 \<and> b0 \<le> 244 then
        (case xs of
           y # z # w # ws \<Rightarrow>
             (let b1 = (of_char y :: nat); b2 = (of_char z :: nat); b3 = (of_char w :: nat) in
              if cont b1 \<and> cont b2 \<and> cont b3 \<and> (b0 = 240 \<longrightarrow> 144 \<le> b1)
                 \<and> (b0 = 244 \<longrightarrow> b1 \<le> 143) then
                (case decode_utf8 ws of Inl e \<Rightarrow> Inl e
                 | Inr r \<Rightarrow>
                     Inr (((b0 - 240) * 262144 + (b1 - 128) * 4096 + (b2 - 128) * 64
                           + (b3 - 128)) # r))
              else Inl UnicodeDecodeError)
         | _ \<Rightarrow> Inl UnicodeDecodeError)
      else Inl UnicodeDecodeError)"

text \<open>
  \<open>s.encode("utf-8")\<close>: one to four bytes per code point; a surrogate (U+D800 to U+DFFF)
  raises \<open>UnicodeEncodeError\<close>. A Python string holds no code point above U+10FFFF; the
  model rejects one.
\<close>

definition utf8_bytes :: "nat \<Rightarrow> error + bytes" where
  "utf8_bytes c =
     (if c < 128 then Inr [char_of c]
      else if c < 2048 then Inr [char_of (192 + c div 64), char_of (128 + c mod 64)]
      else if 55296 \<le> c \<and> c \<le> 57343 then Inl UnicodeEncodeError
      else if c < 65536 then
        Inr [char_of (224 + c div 4096), char_of (128 + c div 64 mod 64), char_of (128 + c mod 64)]
      else if c < 1114112 then
        Inr [char_of (240 + c div 262144), char_of (128 + c div 4096 mod 64),
             char_of (128 + c div 64 mod 64), char_of (128 + c mod 64)]
      else Inl UnicodeEncodeError)"

fun encode_utf8 :: "pystr \<Rightarrow> error + bytes" where
  "encode_utf8 [] = Inr []"
| "encode_utf8 (c # cs) =
     (case utf8_bytes c of
        Inl e \<Rightarrow> Inl e
      | Inr bs \<Rightarrow> (case encode_utf8 cs of Inl e \<Rightarrow> Inl e | Inr r \<Rightarrow> Inr (bs @ r)))"

text \<open>\<open>s.replace(old, new)\<close> where \<open>old\<close> is a single character.\<close>

fun replace :: "nat \<Rightarrow> pystr \<Rightarrow> pystr \<Rightarrow> pystr" where
  "replace old new [] = []"
| "replace old new (c # cs) = (if c = old then new else [c]) @ replace old new cs"

text \<open>\<open>s.split(sep)\<close> where \<open>sep\<close> is a single character: never an empty list.\<close>

fun split :: "nat \<Rightarrow> pystr \<Rightarrow> pystr list" where
  "split sep [] = [[]]"
| "split sep (c # cs) =
     (if c = sep then [] # split sep cs
      else (case split sep cs of [] \<Rightarrow> [[c]] | p # ps \<Rightarrow> (c # p) # ps))"

text \<open>\<open>sep.join(xs)\<close> for a list of strings.\<close>

fun join :: "pystr \<Rightarrow> pystr list \<Rightarrow> pystr" where
  "join sep [] = []"
| "join sep [x] = x"
| "join sep (x # y # ys) = x @ sep @ join sep (y # ys)"

text \<open>\<open>xs[0]\<close>: the first element, or \<open>IndexError\<close> on an empty list.\<close>

definition index0 :: "'a list \<Rightarrow> error + 'a" where
  "index0 xs = (case xs of [] \<Rightarrow> Inl (IndexError (str ''list index out of range'')) | x # _ \<Rightarrow> Inr x)"

section \<open>\<open>encode_html_characters\<close>\<close>

text \<open>
  \<^verbatim>\<open>return unencoded_str.encode('ascii', 'xmlcharrefreplace').decode().replace("\n", "<br>")\<close>
\<close>

definition encode_html_characters :: "pystr \<Rightarrow> error + pystr" where
  "encode_html_characters unencoded_str =
     (case decode_utf8 (encode_ascii_xmlcharrefreplace unencoded_str) of
        Inl e \<Rightarrow> Inl e
      | Inr s \<Rightarrow> Inr (replace 10 (str ''<br>'') s))"

section \<open>\<open>validate_mail_address\<close>\<close>

subsection \<open>The regular expressions that the source uses, and \<open>re.match\<close>\<close>

text \<open>
  The pattern of the source is a sequence of items: the anchors \<open>^\<close> and \<open>$\<close>, a literal
  character, and a character class repeated at least \<open>n\<close> times (\<open>+\<close> is \<open>n = 1\<close>,
  \<open>{2,}\<close> is \<open>n = 2\<close>). A class is a list of ranges and single characters.
\<close>

datatype cls_item = Range char char | Chr char

datatype re_item = Bol | Eol | Lit char | Repeat "cls_item list" nat

fun in_item :: "nat \<Rightarrow> cls_item \<Rightarrow> bool" where
  "in_item c (Range lo hi) = (of_char lo \<le> c \<and> c \<le> of_char hi)"
| "in_item c (Chr x) = (c = of_char x)"

definition in_class :: "cls_item list \<Rightarrow> nat \<Rightarrow> bool" where
  "in_class cls c = list_ex (in_item c) cls"

text \<open>
  \<open>re.match(pattern, s)\<close> is not \<open>None\<close> when some way of matching the items one after the
  other, starting at position 0, exists (the engine backtracks over the repetition counts;
  the match need not reach the end of the string). \<open>re_match items s i\<close> is the search from
  the position \<open>i\<close>, where \<open>s\<close> is the rest of the string there. Without flags, \<open>^\<close> matches
  at position 0 only, and \<open>$\<close> matches at the end of the string and also just before a
  line feed that is the last character of the string.
\<close>

fun re_match :: "re_item list \<Rightarrow> pystr \<Rightarrow> nat \<Rightarrow> bool" where
  "re_match [] s i = True"
| "re_match (Bol # items) s i = (i = 0 \<and> re_match items s i)"
| "re_match (Eol # items) s i = ((s = [] \<or> s = [10]) \<and> re_match items s i)"
| "re_match (Lit x # items) s i =
     (case s of [] \<Rightarrow> False | c # cs \<Rightarrow> c = of_char x \<and> re_match items cs (Suc i))"
| "re_match (Repeat cls n # items) s i =
     list_ex (\<lambda>k. re_match items (drop k s) (i + k))
       [n ..< Suc (length (takeWhile (in_class cls) s))]"

text \<open>\<^verbatim>\<open>email_regex = r'^[a-zA-Z0-9._%+-]+@[a-zA-Z0-9.-]+\.[a-zA-Z]{2,}$'\<close>\<close>

definition email_regex :: "re_item list" where
  "email_regex =
     [Bol,
      Repeat [Range CHR ''a'' CHR ''z'', Range CHR ''A'' CHR ''Z'', Range CHR ''0'' CHR ''9'',
              Chr CHR ''.'', Chr CHR ''_'', Chr CHR ''%'', Chr CHR ''+'', Chr CHR ''-''] 1,
      Lit CHR ''@'',
      Repeat [Range CHR ''a'' CHR ''z'', Range CHR ''A'' CHR ''Z'', Range CHR ''0'' CHR ''9'',
              Chr CHR ''.'', Chr CHR ''-''] 1,
      Lit CHR ''.'',
      Repeat [Range CHR ''a'' CHR ''z'', Range CHR ''A'' CHR ''Z''] 2,
      Eol]"

text \<open>
  \<^verbatim>\<open>assert re.match(email_regex, am_i_a_mail_address), f"{am_i_a_mail_address} is not a valid mail address."\<close>
\<close>

definition validate_mail_address :: "pystr \<Rightarrow> error + unit" where
  "validate_mail_address am_i_a_mail_address =
     (if re_match email_regex am_i_a_mail_address 0 then Inr ()
      else Inl (AssertionError (am_i_a_mail_address @ str '' is not a valid mail address.'')))"

subsection \<open>The canonical address shape of the specification\<close>

text \<open>
  The shape \<open>local-part@domain.tld\<close>, over the whole string: a non-empty local part of
  ASCII letters, digits and \<open>._%+-\<close>, a non-empty domain of ASCII letters, digits, dots and
  hyphens, and a final label of at least two ASCII letters.
\<close>

definition letter :: "nat \<Rightarrow> bool" where
  "letter c = ((97 \<le> c \<and> c \<le> 122) \<or> (65 \<le> c \<and> c \<le> 90))"

definition digit :: "nat \<Rightarrow> bool" where
  "digit c = (48 \<le> c \<and> c \<le> 57)"

definition local_chr :: "nat \<Rightarrow> bool" where
  "local_chr c = (letter c \<or> digit c \<or> c \<in> set (str ''._%+-''))"

definition domain_chr :: "nat \<Rightarrow> bool" where
  "domain_chr c = (letter c \<or> digit c \<or> c \<in> set (str ''.-''))"

definition canonical_shape :: "pystr \<Rightarrow> bool" where
  "canonical_shape s =
     (\<exists>l d t. s = l @ str ''@'' @ d @ str ''.'' @ t
        \<and> l \<noteq> [] \<and> list_all local_chr l
        \<and> d \<noteq> [] \<and> list_all domain_chr d
        \<and> 2 \<le> length t \<and> list_all letter t)"

section \<open>\<open>prepare_recipients\<close>\<close>

text \<open>
  Modelled from the spec: the constants and the objects of the external message library
  (\<open>independentsoft.msg\<close>), which is not part of the repository. Only the constants that
  the source names are modelled. A constructor call (\<open>Recipient()\<close>, \<open>Message()\<close>) gives an
  object whose fields are unset and whose collections are empty.
\<close>

datatype RecipientType = TO | CC

datatype DisplayType = DisplayType_MAIL_USER

datatype ObjectType = ObjectType_MAIL_USER

datatype MessageFlag = UNSENT

datatype StoreSupportMask = CREATE

record recipient =
  address_type :: "pystr option"
  display_type :: "DisplayType option"
  object_type :: "ObjectType option"
  display_name :: "pystr option"
  email_address :: "pystr option"
  recipient_type :: "RecipientType option"

definition Recipient :: recipient where
  "Recipient = \<lparr>address_type = None, display_type = None, object_type = None,
     display_name = None, email_address = None, recipient_type = None\<rparr>"

definition prepare_recipients :: "pystr \<Rightarrow> RecipientType \<Rightarrow> error + recipient" where
  "prepare_recipients recipient_mail rtype =
     (case validate_mail_address recipient_mail of
        Inl e \<Rightarrow> Inl e
      | Inr _ \<Rightarrow>
          Inr (Recipient
                 \<lparr>address_type := Some (str ''SMTP''),
                  display_type := Some DisplayType_MAIL_USER,
                  object_type := Some ObjectType_MAIL_USER,
                  display_name := Some recipient_mail,
                  email_address := Some recipient_mail,
                  recipient_type := Some rtype\<rparr>))"

section \<open>\<open>generate_msg_filename\<close>\<close>

text \<open>
  \<open>datetime.now()\<close> is an input of the model. \<open>strftime("%Y%m%d_%H%M%S")\<close> writes the
  year on four digits (the years that \<open>now()\<close> gives have four) and the other fields on
  two, padded with zeros.
\<close>

record datetime =
  year :: nat
  month :: nat
  day :: nat
  hour :: nat
  minute :: nat
  second :: nat

definition zero_pad :: "nat \<Rightarrow> nat \<Rightarrow> pystr" where
  "zero_pad w n = replicate (w - length (decimal n)) 48 @ decimal n"

definition strftime :: "datetime \<Rightarrow> pystr" where
  "strftime now =
     zero_pad 4 (year now) @ zero_pad 2 (month now) @ zero_pad 2 (day now) @ str ''_''
     @ zero_pad 2 (hour now) @ zero_pad 2 (minute now) @ zero_pad 2 (second now)"

text \<open>
  The recipient part of the file name (lines 86 to 93). \<open>"@" in recipients\<close> on a value
  that is neither a string nor a list raises \<open>TypeError\<close>.
\<close>

definition type_name :: "pyval \<Rightarrow> pystr" where
  "type_name v = (case v of PyStr _ \<Rightarrow> str ''str'' | PyList _ \<Rightarrow> str ''list''
                  | PyInt _ \<Rightarrow> str ''int'' | PyNone \<Rightarrow> str ''NoneType'')"

definition recipients_str :: "pyval \<Rightarrow> error + pystr" where
  "recipients_str recipients =
     (case recipients of
        PyList xs \<Rightarrow>
          (case index0 xs of
             Inl e \<Rightarrow> Inl e
           | Inr x \<Rightarrow>
               (case index0 (split 64 x) of
                  Inl e \<Rightarrow> Inl e
                | Inr first_recipient \<Rightarrow>
                    if length xs > 1 then Inr (first_recipient @ str ''+others'')
                    else Inr first_recipient))
      | PyStr s \<Rightarrow>
          (if 64 \<in> set s then
             (case index0 (split 64 s) of Inl e \<Rightarrow> Inl e | Inr p \<Rightarrow> Inr p)
           else Inr s)
      | _ \<Rightarrow>
          Inl (TypeError (str ''argument of type '' @ [39] @ type_name recipients @ [39]
                          @ str '' is not iterable'')))"

definition generate_msg_filename :: "datetime \<Rightarrow> pyval \<Rightarrow> pystr \<Rightarrow> error + pystr" where
  "generate_msg_filename now recipients subject =
     (let timestamp = strftime now in
      case recipients_str recipients of
        Inl e \<Rightarrow> Inl e
      | Inr rs \<Rightarrow>
          (let subject_clean = take 30 (replace 32 (str ''_'') subject) in
           Inr (timestamp @ str ''_'' @ rs @ str ''_'' @ subject_clean @ str ''.msg'')))"

section \<open>\<open>generate_mail\<close>\<close>

record message =
  subject :: "pystr option"
  body_html_text :: "pystr option"
  body_rtf :: "bytes option"
  display_to :: "pystr option"
  display_cc :: "pystr option"
  recipients :: "recipient list"
  message_flags :: "MessageFlag list"
  store_support_masks :: "StoreSupportMask list"

definition Message :: message where
  "Message = \<lparr>subject = None, body_html_text = None, body_rtf = None, display_to = None,
     display_cc = None, recipients = [], message_flags = [], store_support_masks = []\<rparr>"

text \<open>
  The state of a call: the message object, the local variables that hold the recipients
  built so far and the display strings, and the files that \<open>message.save\<close> has written
  (file name and content). An exception leaves the state as it is where it is raised.
\<close>

record state =
  v_message :: message
  v_recipient_to :: "recipient list"
  v_display_to :: pystr
  v_recipient_cc :: "recipient list"
  v_display_cc :: pystr
  saved :: "(pystr \<times> message) list"

text \<open>\<^verbatim>\<open>for item in to: recipient_to.append(prepare_recipients(item, RecipientType.TO))\<close>\<close>

fun to_loop :: "pystr list \<Rightarrow> state \<Rightarrow> (error + unit) \<times> state" where
  "to_loop [] st = (Inr (), st)"
| "to_loop (item # items) st =
     (case prepare_recipients item TO of
        Inl e \<Rightarrow> (Inl e, st)
      | Inr r \<Rightarrow> to_loop items (st\<lparr>v_recipient_to := v_recipient_to st @ [r]\<rparr>))"

text \<open>\<^verbatim>\<open>for item in cc: recipient_cc.append(prepare_recipients(item, RecipientType.CC))\<close>\<close>

fun cc_loop :: "pystr list \<Rightarrow> state \<Rightarrow> (error + unit) \<times> state" where
  "cc_loop [] st = (Inr (), st)"
| "cc_loop (item # items) st =
     (case prepare_recipients item CC of
        Inl e \<Rightarrow> (Inl e, st)
      | Inr r \<Rightarrow> cc_loop items (st\<lparr>v_recipient_cc := v_recipient_cc st @ [r]\<rparr>))"

text \<open>Lines 124 to 134: the primary recipients.\<close>

definition prepare_to :: "pyval \<Rightarrow> state \<Rightarrow> (error + unit) \<times> state" where
  "prepare_to to st0 =
     (let st = st0\<lparr>v_recipient_to := [], v_display_to := []\<rparr> in
      case to of
        PyStr s \<Rightarrow>
          (case prepare_recipients s TO of
             Inl e \<Rightarrow> (Inl e, st)
           | Inr r \<Rightarrow> (Inr (), st\<lparr>v_recipient_to := v_recipient_to st @ [r], v_display_to := s\<rparr>))
      | PyList xs \<Rightarrow>
          (case to_loop xs st of
             (Inl e, st') \<Rightarrow> (Inl e, st')
           | (Inr _, st') \<Rightarrow> (Inr (), st'\<lparr>v_display_to := join (str ''; '') xs\<rparr>))
      | _ \<Rightarrow>
          (Inl (TypeError (str
             ''The variable 'to' must be an email address (str) or a list of email addresses (list).'')),
           st))"

text \<open>Lines 137 to 148: the copy recipients; the empty string means none.\<close>

definition prepare_cc :: "pyval \<Rightarrow> state \<Rightarrow> (error + unit) \<times> state" where
  "prepare_cc cc st0 =
     (let st = st0\<lparr>v_recipient_cc := [], v_display_cc := []\<rparr> in
      if cc \<noteq> PyStr [] then
        (case cc of
           PyStr s \<Rightarrow>
             (case prepare_recipients s CC of
                Inl e \<Rightarrow> (Inl e, st)
              | Inr r \<Rightarrow> (Inr (), st\<lparr>v_recipient_cc := v_recipient_cc st @ [r], v_display_cc := s\<rparr>))
         | PyList xs \<Rightarrow>
             (case cc_loop xs st of
                (Inl e, st') \<Rightarrow> (Inl e, st')
              | (Inr _, st') \<Rightarrow> (Inr (), st'\<lparr>v_display_cc := join (str ''; '') xs\<rparr>))
         | _ \<Rightarrow>
             (Inl (TypeError (str
                ''The variable 'cc' must be an email address (str) or a list of email addresses (list).'')),
              st))
      else (Inr (), st))"

text \<open>
  Line 153: the fixed text before the HTML body,
  \<^verbatim>\<open>"{\\rtf1\\ansi\\ansicpg1252\\fromhtml1 \\htmlrtf0 "\<close>, where each \<^verbatim>\<open>\\\<close> of the
  Python literal is one backslash (character 92).
\<close>

definition backslash :: char where
  "backslash = CHR 0x5C"

definition rtf_preamble :: string where
  "rtf_preamble =
     ''{'' @ [backslash] @ ''rtf1'' @ [backslash] @ ''ansi'' @ [backslash] @ ''ansicpg1252''
     @ [backslash] @ ''fromhtml1 '' @ [backslash] @ ''htmlrtf0 ''"

text \<open>\<^verbatim>\<open>for recipient in rs: message.recipients.append(recipient)\<close>\<close>

fun append_recipients :: "recipient list \<Rightarrow> message \<Rightarrow> message" where
  "append_recipients [] m = m"
| "append_recipients (r # rs) m = append_recipients rs (m\<lparr>recipients := recipients m @ [r]\<rparr>)"

text \<open>Lines 157 to 167: the fields of the message object.\<close>

definition populate :: "pystr \<Rightarrow> pystr \<Rightarrow> bytes \<Rightarrow> state \<Rightarrow> message" where
  "populate subj html_body rtf_body st =
     (let m1 = (v_message st)
                 \<lparr>subject := Some subj,
                  body_html_text := Some html_body,
                  body_rtf := Some rtf_body,
                  display_to := Some (v_display_to st),
                  display_cc := Some (v_display_cc st)\<rparr>;
          m2 = append_recipients (v_recipient_to st) m1;
          m3 = append_recipients (v_recipient_cc st) m2;
          m4 = m3\<lparr>message_flags := message_flags m3 @ [UNSENT]\<rparr>
      in m4\<lparr>store_support_masks := store_support_masks m4 @ [CREATE]\<rparr>)"

text \<open>
  Modelled from the spec: \<open>message.save(filename)\<close> of the external library, which is not
  part of the repository. The call writes the message to the named file, or raises on an
  I/O failure (an unwritable path, a file name that the file system refuses), and
  \<open>generate_mail\<close> does not catch that error. What the library does is an input of the
  model: \<open>None\<close> when the call returns, \<open>Some m\<close> when it raises an error with the message
  \<open>m\<close>. A call that raises writes no file (the specification takes the call as atomic).
\<close>

definition save :: "pystr option \<Rightarrow> pystr \<Rightarrow> state \<Rightarrow> (error + unit) \<times> state" where
  "save outcome filename st =
     (case outcome of
        None \<Rightarrow> (Inr (), st\<lparr>saved := saved st @ [(filename, v_message st)]\<rparr>)
      | Some m \<Rightarrow> (Inl (OSError m), st))"

text \<open>The whole function; \<open>outcome\<close> is what \<open>message.save\<close> does if the call reaches it.\<close>

definition initial_state :: state where
  "initial_state = \<lparr>v_message = Message, v_recipient_to = [], v_display_to = [],
     v_recipient_cc = [], v_display_cc = [], saved = []\<rparr>"

definition generate_mail ::
  "datetime \<Rightarrow> pystr option \<Rightarrow> pyval \<Rightarrow> pyval \<Rightarrow> pystr \<Rightarrow> pystr
     \<Rightarrow> (error + unit) \<times> state" where
  "generate_mail now outcome to cc subj body =
     (case prepare_to to initial_state of
        (Inl e, st1) \<Rightarrow> (Inl e, st1)
      | (Inr _, st1) \<Rightarrow>
     (case prepare_cc cc st1 of
        (Inl e, st2) \<Rightarrow> (Inl e, st2)
      | (Inr _, st2) \<Rightarrow>
     (case encode_html_characters body of
        Inl e \<Rightarrow> (Inl e, st2)
      | Inr html_body \<Rightarrow>
     (case encode_utf8 (str rtf_preamble @ html_body @ str ''}'') of
        Inl e \<Rightarrow> (Inl e, st2)
      | Inr rtf_body \<Rightarrow>
     (let st3 = st2\<lparr>v_message := populate subj html_body rtf_body st2\<rparr> in
      case generate_msg_filename now to subj of
        Inl e \<Rightarrow> (Inl e, st3)
      | Inr filename \<Rightarrow> save outcome filename st3)))))"

section \<open>Definitions used to state the properties\<close>

text \<open>A string of ASCII characters only.\<close>

definition ascii :: "pystr \<Rightarrow> bool" where
  "ascii s = list_all (\<lambda>c. c < 128) s"

text \<open>What \<open>encode('ascii', 'xmlcharrefreplace')\<close> writes for one character.\<close>

definition ascii_or_ref :: "nat \<Rightarrow> pystr" where
  "ascii_or_ref c = (if c < 128 then [c] else xmlcharrefreplace c)"

text \<open>
  The HTML text of one character, as the code produces it: a line feed is a line break,
  any other ASCII character (control characters too) is itself, a character from 128 on
  is its numeric character reference.
\<close>

definition html_char :: "nat \<Rightarrow> pystr" where
  "html_char c = (if c = 10 then str ''<br>'' else if c < 128 then [c] else xmlcharrefreplace c)"

text \<open>
  The HTML text of one character, in the words of the specification: every character
  outside the printable ASCII range (32 to 126) is replaced by its reference.
\<close>

definition printable_ascii :: "nat \<Rightarrow> bool" where
  "printable_ascii c = (32 \<le> c \<and> c \<le> 126)"

definition html_char_spec :: "nat \<Rightarrow> pystr" where
  "html_char_spec c =
     (if c = 10 then str ''<br>'' else if printable_ascii c then [c] else xmlcharrefreplace c)"

text \<open>The recipient record that \<open>prepare_recipients\<close> builds for an accepted address.\<close>

definition recipient_of :: "RecipientType \<Rightarrow> pystr \<Rightarrow> recipient" where
  "recipient_of rtype a =
     \<lparr>address_type = Some (str ''SMTP''), display_type = Some DisplayType_MAIL_USER,
      object_type = Some ObjectType_MAIL_USER, display_name = Some a,
      email_address = Some a, recipient_type = Some rtype\<rparr>"

text \<open>
  The validator fails on a string with the assertion error whose message names the string.
\<close>

definition rejected :: "pystr \<Rightarrow> bool" where
  "rejected s =
     (validate_mail_address s = Inl (AssertionError (s @ str '' is not a valid mail address.'')))"

text \<open>An address that the validator accepts.\<close>

definition accepted :: "pystr \<Rightarrow> bool" where
  "accepted a = (validate_mail_address a = Inr ())"

text \<open>
  A valid value for \<open>to\<close>, and for a \<open>cc\<close> that is not the empty string: an accepted
  address, or a list of accepted addresses.
\<close>

definition valid_addresses :: "pyval \<Rightarrow> bool" where
  "valid_addresses v =
     (case v of PyStr s \<Rightarrow> accepted s | PyList xs \<Rightarrow> list_all accepted xs | _ \<Rightarrow> False)"

text \<open>A valid value for \<open>cc\<close>: the empty string, or as for \<open>to\<close>.\<close>

definition valid_cc :: "pyval \<Rightarrow> bool" where
  "valid_cc cc = (cc = PyStr [] \<or> valid_addresses cc)"

text \<open>\<open>isinstance(v, str) or isinstance(v, list)\<close>.\<close>

definition is_str_or_list :: "pyval \<Rightarrow> bool" where
  "is_str_or_list v = (case v of PyStr _ \<Rightarrow> True | PyList _ \<Rightarrow> True | _ \<Rightarrow> False)"

text \<open>The addresses that a value of \<open>to\<close> or \<open>cc\<close> holds, in input order.\<close>

definition addresses :: "pyval \<Rightarrow> pystr list" where
  "addresses v = (case v of PyStr s \<Rightarrow> [s] | PyList xs \<Rightarrow> xs | _ \<Rightarrow> [])"

text \<open>The display string of a value: the string itself, or the list joined with \<open>; \<close>.\<close>

definition display_string :: "pyval \<Rightarrow> pystr" where
  "display_string v = (case v of PyStr s \<Rightarrow> s | PyList xs \<Rightarrow> join (str ''; '') xs | _ \<Rightarrow> [])"

text \<open>The same for \<open>cc\<close>, where the empty string stands for no address.\<close>

definition cc_addresses :: "pyval \<Rightarrow> pystr list" where
  "cc_addresses cc = (if cc = PyStr [] then [] else addresses cc)"

definition cc_display_string :: "pyval \<Rightarrow> pystr" where
  "cc_display_string cc = (if cc = PyStr [] then [] else display_string cc)"

text \<open>The recipients that a call has constructed when it returns or raises.\<close>

definition constructed :: "state \<Rightarrow> recipient list" where
  "constructed st = v_recipient_to st @ v_recipient_cc st"

text \<open>The error of line 148.\<close>

definition cc_type_error :: error where
  "cc_type_error = TypeError (str
     ''The variable 'cc' must be an email address (str) or a list of email addresses (list).'')"

text \<open>The errors of the checks on \<open>to\<close> and \<open>cc\<close>: the assertion of the validator, a type error.\<close>

definition is_check_error :: "error \<Rightarrow> bool" where
  "is_check_error e = (case e of AssertionError _ \<Rightarrow> True | TypeError _ \<Rightarrow> True | _ \<Rightarrow> False)"

text \<open>The message object after lines 157 to 167, for valid \<open>to\<close> and \<open>cc\<close>.\<close>

definition assembled :: "pyval \<Rightarrow> pyval \<Rightarrow> pystr \<Rightarrow> pystr \<Rightarrow> message" where
  "assembled to cc subj body =
     \<lparr>subject = Some subj,
      body_html_text = Some (concat (map html_char body)),
      body_rtf = Some (rtf_preamble @ map char_of (concat (map html_char body)) @ ''}''),
      display_to = Some (display_string to),
      display_cc = Some (cc_display_string cc),
      recipients = map (recipient_of TO) (addresses to) @ map (recipient_of CC) (cc_addresses cc),
      message_flags = [UNSENT],
      store_support_masks = [CREATE]\<rparr>"

text \<open>The state of the call at line 170, for valid \<open>to\<close> and \<open>cc\<close>.\<close>

definition assembled_state :: "pyval \<Rightarrow> pyval \<Rightarrow> pystr \<Rightarrow> pystr \<Rightarrow> state" where
  "assembled_state to cc subj body =
     \<lparr>v_message = assembled to cc subj body,
      v_recipient_to = map (recipient_of TO) (addresses to),
      v_display_to = display_string to,
      v_recipient_cc = map (recipient_of CC) (cc_addresses cc),
      v_display_cc = cc_display_string cc,
      saved = []\<rparr>"

section \<open>Lemmas on the string operations\<close>

lemma str_append: "str (a @ b) = str a @ str b"
  by (simp add: str_def)

lemma decimal_digits: "c \<in> set (decimal n) \<Longrightarrow> 48 \<le> c \<and> c \<le> 57"
proof (induction n rule: decimal.induct)
  case (1 n)
  show ?case
  proof (cases "n < 10")
    case True
    with "1.prems" show ?thesis by (simp add: decimal.simps [of n])
  next
    case False
    with "1.prems" have "c \<in> set (decimal (n div 10)) \<or> c = 48 + n mod 10"
      by (auto simp: decimal.simps [of n])
    then show ?thesis
    proof
      assume "c \<in> set (decimal (n div 10))"
      with False "1.IH" show ?thesis by simp
    next
      assume "c = 48 + n mod 10"
      moreover have "n mod 10 < 10" by simp
      ultimately show ?thesis by linarith
    qed
  qed
qed

lemma ascii_append: "ascii (a @ b) = (ascii a \<and> ascii b)"
  by (simp add: ascii_def)

lemma ascii_xmlcharrefreplace: "ascii (xmlcharrefreplace c)"
proof -
  have "\<forall>d\<in>set (decimal c). d < 128"
    using decimal_digits [of _ c] by fastforce
  then show ?thesis
    by (simp add: ascii_def xmlcharrefreplace_def str_def list_all_iff)
qed

lemma decode_utf8_ascii: "ascii cs \<Longrightarrow> decode_utf8 (map char_of cs) = Inr cs"
  by (induction cs) (simp_all add: ascii_def Let_def)

lemma encode_utf8_ascii: "ascii cs \<Longrightarrow> encode_utf8 cs = Inr (map char_of cs)"
  by (induction cs) (simp_all add: ascii_def utf8_bytes_def)

lemma encode_ascii_concat:
  "encode_ascii_xmlcharrefreplace s = map char_of (concat (map ascii_or_ref s))"
  by (induction s) (simp_all add: ascii_or_ref_def)

lemma ascii_concat_refs: "ascii (concat (map ascii_or_ref s))"
  using ascii_xmlcharrefreplace
  by (induction s) (auto simp: ascii_append ascii_or_ref_def ascii_def)

lemma replace_append: "replace old new (a @ b) = replace old new a @ replace old new b"
  by (induction a) simp_all

lemma replace_absent: "old \<notin> set s \<Longrightarrow> replace old new s = s"
  by (induction s) simp_all

lemma replace_concat:
  "replace old new (concat (map f s)) = concat (map (\<lambda>c. replace old new (f c)) s)"
  by (induction s) (simp_all add: replace_append)

lemma lf_notin_ref: "10 \<notin> set (xmlcharrefreplace c)"
  using decimal_digits [of 10 c] by (auto simp: xmlcharrefreplace_def str_def)

lemma replace_ascii_or_ref: "replace 10 (str ''<br>'') (ascii_or_ref c) = html_char c"
  using lf_notin_ref [of c] by (simp add: ascii_or_ref_def html_char_def replace_absent)

lemma encode_html_characters_eq: "encode_html_characters s = Inr (concat (map html_char s))"
  by (simp add: encode_html_characters_def encode_ascii_concat decode_utf8_ascii
      ascii_concat_refs replace_concat replace_ascii_or_ref)

lemma ascii_html_char: "ascii (html_char c)"
  using ascii_xmlcharrefreplace [of c] by (simp add: html_char_def ascii_def str_def)

lemma ascii_html: "ascii (concat (map html_char s))"
  using ascii_html_char by (induction s) (simp_all add: ascii_append ascii_def)

lemma prepare_recipients_ok:
  "validate_mail_address a = Inr () \<Longrightarrow> prepare_recipients a rtype = Inr (recipient_of rtype a)"
  by (simp add: prepare_recipients_def recipient_of_def Recipient_def)

lemma prepare_recipients_error:
  "validate_mail_address a = Inl e \<Longrightarrow> prepare_recipients a rtype = Inl e"
  by (simp add: prepare_recipients_def)

lemma split_hd: "\<exists>ps. split sep s = takeWhile (\<lambda>c. c \<noteq> sep) s # ps"
  by (induction s) auto

lemma index0_split: "index0 (split sep s) = Inr (takeWhile (\<lambda>c. c \<noteq> sep) s)"
  using split_hd [of sep s] by (auto simp: index0_def)

lemma index0_Cons: "index0 (x # xs) = Inr x"
  by (simp add: index0_def)

lemma replace_single: "replace old [new] s = map (\<lambda>c. if c = old then new else c) s"
  by (induction s) simp_all

lemma recipients_str_list:
  "recipients_str (PyList (x # xs)) =
     Inr (takeWhile (\<lambda>c. c \<noteq> 64) x @ (if xs \<noteq> [] then str ''+others'' else []))"
  by (simp add: recipients_str_def index0_split index0_Cons)

lemma recipients_str_str:
  "recipients_str (PyStr s) = Inr (if 64 \<in> set s then takeWhile (\<lambda>c. c \<noteq> 64) s else s)"
  by (simp add: recipients_str_def index0_split)

lemma filename_list:
  "generate_msg_filename now (PyList (x # xs)) subj =
     Inr (strftime now @ str ''_''
          @ takeWhile (\<lambda>c. c \<noteq> 64) x @ (if xs \<noteq> [] then str ''+others'' else [])
          @ str ''_'' @ take 30 (map (\<lambda>c. if c = 32 then 95 else c) subj) @ str ''.msg'')"
  by (simp add: generate_msg_filename_def recipients_str_list Let_def)
     (simp add: str_def replace_single)

lemma filename_str:
  "generate_msg_filename now (PyStr s) subj =
     Inr (strftime now @ str ''_''
          @ (if 64 \<in> set s then takeWhile (\<lambda>c. c \<noteq> 64) s else s)
          @ str ''_'' @ take 30 (map (\<lambda>c. if c = 32 then 95 else c) subj) @ str ''.msg'')"
  by (simp add: generate_msg_filename_def recipients_str_str Let_def)
     (simp add: str_def replace_single)

lemma filename_example:
  "generate_msg_filename
     \<lparr>year = 2024, month = 1, day = 2, hour = 3, minute = 4, second = 5\<rparr>
     (PyList [str ''a@x.com'', str ''b@y.com'']) (str ''Hello World'')
   = Inr (str ''20240102_030405_a+others_Hello_World.msg'')"
  by (simp add: filename_list strftime_def zero_pad_def decimal.simps str_def)

lemma filename_empty:
  "generate_msg_filename now (PyList []) subj = Inl (IndexError (str ''list index out of range''))"
  by (simp add: generate_msg_filename_def recipients_str_def index0_def)

lemma ascii_str_preamble: "ascii (str rtf_preamble)"
  by (simp add: ascii_def str_def rtf_preamble_def backslash_def)

lemma map_char_of_str: "map char_of (str cs) = cs"
  by (simp add: str_def comp_def)

lemma rtf_bytes:
  "ascii html \<Longrightarrow> encode_utf8 (str rtf_preamble @ html @ str ''}'')
     = Inr (rtf_preamble @ map char_of html @ ''}'')"
  using ascii_str_preamble
  by (subst encode_utf8_ascii) (simp_all add: ascii_append map_char_of_str, simp add: ascii_def str_def)

section \<open>Lemmas on the matcher\<close>

text \<open>
  The pattern accepts exactly the canonical shape, with or without one final line feed
  (\<open>re_match_email\<close>, \<open>accepted_iff\<close>).
\<close>

lemma list_ex_upt: "list_ex P [a..<b] = (\<exists>k. a \<le> k \<and> k < b \<and> P k)"
  by (auto simp: list_ex_iff)

lemma le_length_takeWhile:
  "k \<le> length (takeWhile P s) \<longleftrightarrow> k \<le> length s \<and> list_all P (take k s)"
proof (induction s arbitrary: k)
  case Nil
  then show ?case by simp
next
  case (Cons c cs)
  then show ?case by (cases k) auto
qed

lemma re_match_Repeat:
  "re_match (Repeat cls n # items) s i \<longleftrightarrow>
     (\<exists>u v. s = u @ v \<and> n \<le> length u \<and> list_all (in_class cls) u
            \<and> re_match items v (i + length u))"
proof
  assume "re_match (Repeat cls n # items) s i"
  then obtain k where k: "n \<le> k" "k \<le> length (takeWhile (in_class cls) s)"
    "re_match items (drop k s) (i + k)"
    by (auto simp: list_ex_upt less_Suc_eq_le simp del: upt_Suc)
  from k(2) have "k \<le> length s" "list_all (in_class cls) (take k s)"
    by (simp_all add: le_length_takeWhile)
  with k(1,3) have "s = take k s @ drop k s \<and> n \<le> length (take k s)
      \<and> list_all (in_class cls) (take k s)
      \<and> re_match items (drop k s) (i + length (take k s))"
    by (simp add: min_absorb2)
  then show "\<exists>u v. s = u @ v \<and> n \<le> length u \<and> list_all (in_class cls) u
            \<and> re_match items v (i + length u)"
    by blast
next
  assume "\<exists>u v. s = u @ v \<and> n \<le> length u \<and> list_all (in_class cls) u
            \<and> re_match items v (i + length u)"
  then obtain u v where uv: "s = u @ v" "n \<le> length u" "list_all (in_class cls) u"
    "re_match items v (i + length u)"
    by blast
  have "length u \<le> length (takeWhile (in_class cls) s)"
    using uv(1,3) by (simp add: le_length_takeWhile)
  with uv show "re_match (Repeat cls n # items) s i"
    by (auto simp: list_ex_upt less_Suc_eq_le simp del: upt_Suc intro!: exI [of _ "length u"])
qed

lemma re_match_RepeatI:
  "list_all (in_class cls) u \<Longrightarrow> n \<le> length u \<Longrightarrow> re_match items v (i + length u)
   \<Longrightarrow> re_match (Repeat cls n # items) (u @ v) i"
  unfolding re_match_Repeat by blast

lemma re_match_LitI:
  "re_match items v (Suc i) \<Longrightarrow> re_match (Lit x # items) (of_char x # v) i"
  by simp

lemma re_match_Lit:
  "re_match (Lit x # items) s i \<longleftrightarrow> (\<exists>v. s = of_char x # v \<and> re_match items v (Suc i))"
  by (cases s) auto

lemma local_class:
  "in_class [Range CHR ''a'' CHR ''z'', Range CHR ''A'' CHR ''Z'', Range CHR ''0'' CHR ''9'',
              Chr CHR ''.'', Chr CHR ''_'', Chr CHR ''%'', Chr CHR ''+'', Chr CHR ''-''] = local_chr"
  by (rule ext) (auto simp: in_class_def local_chr_def letter_def digit_def str_def)

lemma domain_class:
  "in_class [Range CHR ''a'' CHR ''z'', Range CHR ''A'' CHR ''Z'', Range CHR ''0'' CHR ''9'',
              Chr CHR ''.'', Chr CHR ''-''] = domain_chr"
  by (rule ext) (auto simp: in_class_def domain_chr_def letter_def digit_def str_def)

lemma letter_class:
  "in_class [Range CHR ''a'' CHR ''z'', Range CHR ''A'' CHR ''Z''] = letter"
  by (rule ext) (auto simp: in_class_def letter_def)

lemma re_match_email:
  "re_match email_regex s 0 \<longleftrightarrow>
     (\<exists>l d t e. s = l @ 64 # d @ 46 # t @ e \<and> (e = [] \<or> e = [10])
        \<and> l \<noteq> [] \<and> list_all local_chr l
        \<and> d \<noteq> [] \<and> list_all domain_chr d
        \<and> 2 \<le> length t \<and> list_all letter t)"
  (is "?lhs \<longleftrightarrow> ?rhs")
proof
  assume ?lhs
  then obtain l d t e where
    "s = l @ 64 # d @ 46 # t @ e" "e = [] \<or> e = [10]"
    "Suc 0 \<le> length l" "list_all local_chr l"
    "Suc 0 \<le> length d" "list_all domain_chr d"
    "2 \<le> length t" "list_all letter t"
    unfolding email_regex_def
    by (auto simp: re_match_Repeat re_match_Lit local_class domain_class letter_class
        simp del: re_match.simps(4,5))
  then show ?rhs
    by (intro exI [of _ l] exI [of _ d] exI [of _ t] exI [of _ e]) auto
next
  assume ?rhs
  then obtain l d t e where
    "s = l @ 64 # d @ 46 # t @ e" "e = [] \<or> e = [10]"
    "l \<noteq> []" "list_all local_chr l" "d \<noteq> []" "list_all domain_chr d"
    "2 \<le> length t" "list_all letter t"
    by blast
  then have *: "s = l @ of_char CHR ''@'' # d @ of_char CHR ''.'' # t @ e"
    and e: "e = [] \<or> e = [10]"
    and l: "Suc 0 \<le> length l" "list_all local_chr l"
    and d: "Suc 0 \<le> length d" "list_all domain_chr d"
    and t: "2 \<le> length t" "list_all letter t"
    by (simp_all add: Suc_le_eq)
  have m1: "re_match [Eol] e k" for k
    using e by auto
  have m2: "re_match [Repeat [Range CHR ''a'' CHR ''z'', Range CHR ''A'' CHR ''Z''] 2, Eol]
      (t @ e) k" for k
    using t m1 by (intro re_match_RepeatI) (simp_all add: letter_class)
  have m3: "re_match [Lit CHR ''.'',
      Repeat [Range CHR ''a'' CHR ''z'', Range CHR ''A'' CHR ''Z''] 2, Eol]
      (of_char CHR ''.'' # t @ e) k" for k
    using m2 by (intro re_match_LitI)
  have m4: "re_match [Repeat [Range CHR ''a'' CHR ''z'', Range CHR ''A'' CHR ''Z'',
        Range CHR ''0'' CHR ''9'', Chr CHR ''.'', Chr CHR ''-''] 1, Lit CHR ''.'',
      Repeat [Range CHR ''a'' CHR ''z'', Range CHR ''A'' CHR ''Z''] 2, Eol]
      (d @ of_char CHR ''.'' # t @ e) k" for k
    using d m3 by (intro re_match_RepeatI) (simp_all add: domain_class)
  have m5: "re_match [Lit CHR ''@'',
      Repeat [Range CHR ''a'' CHR ''z'', Range CHR ''A'' CHR ''Z'',
        Range CHR ''0'' CHR ''9'', Chr CHR ''.'', Chr CHR ''-''] 1, Lit CHR ''.'',
      Repeat [Range CHR ''a'' CHR ''z'', Range CHR ''A'' CHR ''Z''] 2, Eol]
      (of_char CHR ''@'' # d @ of_char CHR ''.'' # t @ e) k" for k
    using m4 by (intro re_match_LitI)
  have m6: "re_match [Repeat [Range CHR ''a'' CHR ''z'', Range CHR ''A'' CHR ''Z'',
        Range CHR ''0'' CHR ''9'', Chr CHR ''.'', Chr CHR ''_'', Chr CHR ''%'',
        Chr CHR ''+'', Chr CHR ''-''] 1, Lit CHR ''@'',
      Repeat [Range CHR ''a'' CHR ''z'', Range CHR ''A'' CHR ''Z'',
        Range CHR ''0'' CHR ''9'', Chr CHR ''.'', Chr CHR ''-''] 1, Lit CHR ''.'',
      Repeat [Range CHR ''a'' CHR ''z'', Range CHR ''A'' CHR ''Z''] 2, Eol]
      (l @ of_char CHR ''@'' # d @ of_char CHR ''.'' # t @ e) 0"
    using l m5 by (intro re_match_RepeatI) (simp_all add: local_class)
  show ?lhs
    unfolding email_regex_def * using m6 by (simp del: re_match.simps(4,5))
qed

lemma validate_cases:
  "validate_mail_address s = Inr () \<longleftrightarrow> re_match email_regex s 0"
  "rejected s \<longleftrightarrow> \<not> re_match email_regex s 0"
  by (simp_all add: validate_mail_address_def rejected_def)

lemma accepted_iff:
  "validate_mail_address s = Inr () \<longleftrightarrow>
     canonical_shape s \<or> (\<exists>t. s = t @ [10] \<and> canonical_shape t)"
proof
  assume "validate_mail_address s = Inr ()"
  then obtain l d t e where
    s: "s = l @ 64 # d @ 46 # t @ e" and e: "e = [] \<or> e = [10]"
    and r: "l \<noteq> []" "list_all local_chr l" "d \<noteq> []" "list_all domain_chr d"
      "2 \<le> length t" "list_all letter t"
    unfolding validate_cases re_match_email by blast
  from r have c: "canonical_shape (l @ 64 # d @ 46 # t)"
    unfolding canonical_shape_def
    by (intro exI [of _ l] exI [of _ d] exI [of _ t]) (simp add: str_def)
  from e show "canonical_shape s \<or> (\<exists>t. s = t @ [10] \<and> canonical_shape t)"
  proof
    assume "e = []"
    with s c show ?thesis by simp
  next
    assume "e = [10]"
    with s have "s = (l @ 64 # d @ 46 # t) @ [10]" by simp
    with c show ?thesis by blast
  qed
next
  assume "canonical_shape s \<or> (\<exists>t. s = t @ [10] \<and> canonical_shape t)"
  then show "validate_mail_address s = Inr ()"
    unfolding validate_cases re_match_email canonical_shape_def
    by (auto simp: str_def) (metis append_Nil2, metis)
qed

lemma at_not_in_classes:
  "list_all local_chr l \<Longrightarrow> 64 \<notin> set l"
  "list_all domain_chr d \<Longrightarrow> 64 \<notin> set d"
  "list_all letter t \<Longrightarrow> 64 \<notin> set t"
  by (auto simp: list_all_iff local_chr_def domain_chr_def letter_def digit_def str_def)

lemma unique_split:
  assumes "l @ x # r = l' @ x # r'" "x \<notin> set l" "x \<notin> set r"
  shows "l' = l \<and> r' = r"
proof -
  from assms(1) obtain us where
    "(l = l' @ us \<and> us @ x # r = x # r') \<or> (l @ us = l' \<and> x # r = us @ x # r')"
    by (auto simp: append_eq_append_conv2)
  then show ?thesis
  proof
    assume a: "l = l' @ us \<and> us @ x # r = x # r'"
    with assms(2) have "us = []" by (cases us) auto
    with a show ?thesis by simp
  next
    assume a: "l @ us = l' \<and> x # r = us @ x # r'"
    with assms(3) have "us = []" by (cases us) auto
    with a show ?thesis by simp
  qed
qed

lemma accepted_split:
  assumes "validate_mail_address s = Inr ()" "s = l' @ 64 # d'"
  shows "list_all local_chr l' \<and> 46 \<in> set d'"
proof -
  from assms(1) obtain l d t e where
    s: "s = l @ 64 # d @ 46 # t @ e" and e: "e = [] \<or> e = [10]"
    and r: "list_all local_chr l" "list_all domain_chr d" "list_all letter t"
    unfolding validate_cases re_match_email by blast
  have "64 \<notin> set l" "64 \<notin> set (d @ 46 # t @ e)"
    using r e at_not_in_classes by auto
  with s assms(2) have "l' = l \<and> d' = d @ 46 # t @ e"
    using unique_split [of l 64 "d @ 46 # t @ e" l' d'] by simp
  with r show ?thesis by simp
qed

lemma rejected_or_accepted: "rejected s \<or> validate_mail_address s = Inr ()"
  by (simp add: validate_mail_address_def rejected_def)

lemma canonical_example: "canonical_shape (str ''first.last+tag@sub-dom.example.org'')"
  unfolding canonical_shape_def
  by (intro exI [of _ "str ''first.last+tag''"] exI [of _ "str ''sub-dom.example''"]
      exI [of _ "str ''org''"])
    (simp add: str_def local_chr_def domain_chr_def letter_def digit_def)

section \<open>Lemmas on the message assembler\<close>

lemma prepare_recipients_accepted:
  "accepted a \<Longrightarrow> prepare_recipients a rtype = Inr (recipient_of rtype a)"
  by (simp add: accepted_def prepare_recipients_ok)

lemma prepare_recipients_rejected:
  "\<not> accepted a \<Longrightarrow>
   prepare_recipients a rtype = Inl (AssertionError (a @ str '' is not a valid mail address.''))"
  by (simp add: accepted_def prepare_recipients_def validate_mail_address_def split: if_splits)

lemma to_loop_valid:
  "list_all accepted xs \<Longrightarrow>
   to_loop xs st = (Inr (), st\<lparr>v_recipient_to := v_recipient_to st @ map (recipient_of TO) xs\<rparr>)"
  by (induction xs arbitrary: st) (simp_all add: prepare_recipients_accepted)

lemma cc_loop_valid:
  "list_all accepted xs \<Longrightarrow>
   cc_loop xs st = (Inr (), st\<lparr>v_recipient_cc := v_recipient_cc st @ map (recipient_of CC) xs\<rparr>)"
  by (induction xs arbitrary: st) (simp_all add: prepare_recipients_accepted)

lemma to_loop_invalid:
  "\<not> list_all accepted xs \<Longrightarrow>
   \<exists>e st'. to_loop xs st = (Inl e, st') \<and> is_check_error e
      \<and> v_message st' = v_message st \<and> saved st' = saved st"
proof (induction xs arbitrary: st)
  case Nil
  then show ?case by simp
next
  case (Cons x xs)
  show ?case
  proof (cases "accepted x")
    case True
    with Cons.prems have "\<not> list_all accepted xs" by simp
    from Cons.IH [OF this, of "st\<lparr>v_recipient_to := v_recipient_to st @ [recipient_of TO x]\<rparr>"]
    show ?thesis using True by (simp add: prepare_recipients_accepted)
  next
    case False
    then show ?thesis by (simp add: prepare_recipients_rejected is_check_error_def)
  qed
qed

lemma cc_loop_invalid:
  "\<not> list_all accepted xs \<Longrightarrow>
   \<exists>e st'. cc_loop xs st = (Inl e, st') \<and> is_check_error e
      \<and> v_message st' = v_message st \<and> saved st' = saved st
      \<and> v_recipient_to st' = v_recipient_to st \<and> v_display_to st' = v_display_to st"
proof (induction xs arbitrary: st)
  case Nil
  then show ?case by simp
next
  case (Cons x xs)
  show ?case
  proof (cases "accepted x")
    case True
    with Cons.prems have "\<not> list_all accepted xs" by simp
    from Cons.IH [OF this, of "st\<lparr>v_recipient_cc := v_recipient_cc st @ [recipient_of CC x]\<rparr>"]
    show ?thesis using True by (simp add: prepare_recipients_accepted)
  next
    case False
    then show ?thesis by (simp add: prepare_recipients_rejected is_check_error_def)
  qed
qed

lemma prepare_to_valid:
  "valid_addresses to \<Longrightarrow>
   prepare_to to st =
     (Inr (), st\<lparr>v_recipient_to := map (recipient_of TO) (addresses to),
                 v_display_to := display_string to\<rparr>)"
  by (cases to)
    (simp_all add: valid_addresses_def prepare_to_def addresses_def display_string_def
      prepare_recipients_accepted to_loop_valid)

lemma prepare_to_invalid:
  "\<not> valid_addresses to \<Longrightarrow>
   \<exists>e st'. prepare_to to st = (Inl e, st') \<and> is_check_error e
      \<and> v_message st' = v_message st \<and> saved st' = saved st"
proof (cases to)
  case (PyStr s)
  assume "\<not> valid_addresses to"
  with PyStr show ?thesis
    by (simp add: valid_addresses_def prepare_to_def prepare_recipients_rejected
        is_check_error_def)
next
  case (PyList xs)
  assume "\<not> valid_addresses to"
  with PyList have "\<not> list_all accepted xs" by (simp add: valid_addresses_def)
  from to_loop_invalid [OF this, of "st\<lparr>v_recipient_to := [], v_display_to := []\<rparr>"]
  show ?thesis using PyList by (auto simp: prepare_to_def)
next
  case (PyInt n)
  then show ?thesis by (simp add: prepare_to_def is_check_error_def)
next
  case PyNone
  then show ?thesis by (simp add: prepare_to_def is_check_error_def)
qed

lemma prepare_cc_valid:
  "valid_cc cc \<Longrightarrow>
   prepare_cc cc st =
     (Inr (), st\<lparr>v_recipient_cc := map (recipient_of CC) (cc_addresses cc),
                 v_display_cc := cc_display_string cc\<rparr>)"
  by (cases cc)
    (auto simp: valid_cc_def valid_addresses_def prepare_cc_def addresses_def
      display_string_def cc_addresses_def cc_display_string_def
      prepare_recipients_accepted cc_loop_valid)

lemma prepare_cc_invalid:
  "\<not> valid_cc cc \<Longrightarrow>
   \<exists>e st'. prepare_cc cc st = (Inl e, st') \<and> is_check_error e
      \<and> v_message st' = v_message st \<and> saved st' = saved st
      \<and> v_recipient_to st' = v_recipient_to st \<and> v_display_to st' = v_display_to st"
proof (cases cc)
  case (PyStr s)
  assume "\<not> valid_cc cc"
  with PyStr show ?thesis
    by (auto simp: valid_cc_def valid_addresses_def prepare_cc_def prepare_recipients_rejected
        is_check_error_def)
next
  case (PyList xs)
  assume "\<not> valid_cc cc"
  with PyList have "\<not> list_all accepted xs" by (simp add: valid_cc_def valid_addresses_def)
  from cc_loop_invalid [OF this, of "st\<lparr>v_recipient_cc := [], v_display_cc := []\<rparr>"]
  show ?thesis using PyList by (auto simp: prepare_cc_def)
next
  case (PyInt n)
  then show ?thesis by (simp add: prepare_cc_def is_check_error_def)
next
  case PyNone
  then show ?thesis by (simp add: prepare_cc_def is_check_error_def)
qed

lemma prepare_cc_wrong_type:
  "\<not> is_str_or_list cc \<Longrightarrow>
   prepare_cc cc st = (Inl cc_type_error, st\<lparr>v_recipient_cc := [], v_display_cc := []\<rparr>)"
  by (cases cc) (simp_all add: is_str_or_list_def prepare_cc_def cc_type_error_def)

lemma append_recipients_eq: "append_recipients rs m = m\<lparr>recipients := recipients m @ rs\<rparr>"
  by (induction rs arbitrary: m) simp_all

lemma save_state:
  "v_message (snd (save outcome filename st)) = v_message st"
  "v_recipient_to (snd (save outcome filename st)) = v_recipient_to st"
  "v_recipient_cc (snd (save outcome filename st)) = v_recipient_cc st"
  "v_display_to (snd (save outcome filename st)) = v_display_to st"
  "v_display_cc (snd (save outcome filename st)) = v_display_cc st"
  by (simp_all add: save_def split: option.splits)

lemma generate_mail_valid:
  assumes "valid_addresses to" "valid_cc cc"
  shows "generate_mail now outcome to cc subj body =
     (case generate_msg_filename now to subj of
        Inl e \<Rightarrow> (Inl e, assembled_state to cc subj body)
      | Inr filename \<Rightarrow> save outcome filename (assembled_state to cc subj body))"
  using assms
  by (simp add: generate_mail_def prepare_to_valid prepare_cc_valid initial_state_def
      encode_html_characters_eq rtf_bytes ascii_html populate_def Let_def
      append_recipients_eq Message_def assembled_state_def assembled_def
      split: sum.splits)

lemma generate_mail_invalid:
  assumes "\<not> valid_addresses to \<or> \<not> valid_cc cc"
  shows "\<exists>e st. generate_mail now outcome to cc subj body = (Inl e, st) \<and> is_check_error e
     \<and> v_message st = Message \<and> saved st = []"
proof (cases "valid_addresses to")
  case False
  from prepare_to_invalid [OF this, of initial_state]
  show ?thesis by (auto simp: generate_mail_def initial_state_def)
next
  case True
  with assms have "\<not> valid_cc cc" by simp
  from prepare_cc_invalid [OF this,
      of "initial_state\<lparr>v_recipient_to := map (recipient_of TO) (addresses to),
                 v_display_to := display_string to\<rparr>"]
  show ?thesis using True
    by (auto simp: generate_mail_def prepare_to_valid initial_state_def)
qed


lemma not_accepted_empty: "\<not> accepted []"
  by (simp add: accepted_def validate_mail_address_def email_regex_def)

lemma valid_addresses_cc:
  "valid_addresses cc \<Longrightarrow> valid_cc cc \<and> cc \<noteq> PyStr [] \<and> cc_addresses cc = addresses cc
     \<and> cc_display_string cc = display_string cc"
  using not_accepted_empty
  by (auto simp: valid_cc_def valid_addresses_def cc_addresses_def cc_display_string_def)

lemma generate_mail_valid_state:
  assumes "valid_addresses to" "valid_cc cc"
  shows "v_message (snd (generate_mail now outcome to cc subj body)) = assembled to cc subj body"
    and "v_recipient_to (snd (generate_mail now outcome to cc subj body))
          = map (recipient_of TO) (addresses to)"
    and "v_recipient_cc (snd (generate_mail now outcome to cc subj body))
          = map (recipient_of CC) (cc_addresses cc)"
    and "v_display_to (snd (generate_mail now outcome to cc subj body)) = display_string to"
    and "v_display_cc (snd (generate_mail now outcome to cc subj body)) = cc_display_string cc"
  by (simp_all add: generate_mail_valid [OF assms] save_state assembled_state_def
      split: sum.splits)

lemma generate_mail_wrong_cc:
  assumes "\<not> is_str_or_list cc" "valid_addresses to"
  shows "generate_mail now outcome to cc subj body =
     (Inl cc_type_error,
      initial_state\<lparr>v_recipient_to := map (recipient_of TO) (addresses to),
                    v_display_to := display_string to\<rparr>)"
  using assms
  by (simp add: generate_mail_def prepare_to_valid prepare_cc_wrong_type initial_state_def)

lemma accepted_examples:
  "accepted (str ''a@b.com'')" "accepted (str ''c@d.com'')" "accepted (str ''e@f.com'')"
  "accepted (str ''u@v.com'')"
  by (simp_all add: accepted_def validate_mail_address_def email_regex_def str_def in_class_def)

lemma generate_mail_empty_list:
  "\<exists>e st. generate_mail now outcome (PyList []) cc subj body = (Inl e, st)
     \<and> v_recipient_to st = [] \<and> v_display_to st = [] \<and> saved st = []
     \<and> (if valid_cc cc then e = IndexError (str ''list index out of range'')
         else is_check_error e \<and> v_message st = Message)"
proof (cases "valid_cc cc")
  case True
  have "valid_addresses (PyList [])" by (simp add: valid_addresses_def)
  from generate_mail_valid [OF this True, of now outcome subj body] True
  show ?thesis
    by (simp add: filename_empty assembled_state_def addresses_def display_string_def)
next
  case False
  from prepare_cc_invalid [OF this, of "initial_state\<lparr>v_recipient_to := [], v_display_to := []\<rparr>"]
  show ?thesis using False
    by (auto simp: generate_mail_def prepare_to_def initial_state_def)
qed

section \<open>The body encoder\<close>

text \<open>
  C3 (amended): for every input string, \<open>encode_html_characters\<close> returns the
  concatenation, character by character, of: the line-break marker \<open><br>\<close> for a
  line feed, the decimal numeric character reference \<open>&#c;\<close> for a character outside
  the ASCII range (code point 128 or more), and the character itself for every other
  character (ASCII control characters, \<open><\<close>, \<open>&\<close> and the double quote included). For
  the input \<open>h\<close>, U+00E9, \<open>llo\<close>, line feed, \<open>world\<close> the output is
  \<open>h&#233;llo<br>world\<close>.
\<close>

theorem encode_html_characters_by_char:
  "encode_html_characters s = Inr (concat (map html_char s))
   \<and> html_char 10 = str ''<br>''
   \<and> html_char 233 = str ''&#233;''
   \<and> html_char 9 = [9]
   \<and> html_char (of_char CHR ''<'') = str ''<''
   \<and> html_char (of_char CHR ''&'') = str ''&''
   \<and> html_char 34 = [34]
   \<and> encode_html_characters (str ''h'' @ [233] @ str ''llo'' @ [10] @ str ''world'')
       = Inr (str ''h&#233;llo<br>world'')"
  by (simp add: encode_html_characters_eq html_char_def xmlcharrefreplace_def str_def
      decimal.simps)

theorem encode_html_characters_by_char_witness:
  "encode_html_characters [60, 9, 8364, 10] = Inr (str ''<'' @ [9] @ str ''&#8364;<br>'')"
  using encode_html_characters_by_char [of "[60, 9, 8364, 10]"]
  by (simp add: html_char_def xmlcharrefreplace_def str_def decimal.simps)

text \<open>
  C3 as stated fails on a tab (character 9): it is outside the printable ASCII range,
  and the code leaves it unchanged, where the statement asks for \<open>&#9;\<close>.
\<close>

theorem encode_html_characters_tab_counterexample:
  "encode_html_characters [9] = Inr [9]
   \<and> \<not> printable_ascii 9
   \<and> concat (map html_char_spec [9]) = str ''&#9;''
   \<and> encode_html_characters [9] \<noteq> Inr (concat (map html_char_spec [9]))"
  by (simp add: encode_html_characters_eq html_char_def html_char_spec_def printable_ascii_def
      xmlcharrefreplace_def str_def decimal.simps)

section \<open>The address validator\<close>

text \<open>
  C2: every string of the canonical address shape (a non-empty local part over
  \<open>A-Za-z0-9._%+-\<close>, an \<open>@\<close>, a non-empty domain over \<open>A-Za-z0-9.-\<close>, a dot and a
  final label of two or more letters, over the whole string) is accepted by
  \<open>validate_mail_address\<close>, which then returns silently. A string with no \<open>@\<close>, a string
  whose part after an \<open>@\<close> has no dot, and a string whose part before an \<open>@\<close> holds a
  character outside \<open>A-Za-z0-9._%+-\<close> are each rejected with the assertion error whose
  message names the string.
\<close>

theorem validate_mail_address_shape:
  "(canonical_shape s \<longrightarrow> validate_mail_address s = Inr ())
   \<and> (of_char CHR ''@'' \<notin> set s \<longrightarrow> rejected s)
   \<and> (s = l @ str ''@'' @ d \<and> of_char CHR ''.'' \<notin> set d \<longrightarrow> rejected s)
   \<and> (s = l @ str ''@'' @ d \<and> \<not> list_all local_chr l \<longrightarrow> rejected s)"
proof (intro conjI impI)
  assume "canonical_shape s"
  then show "validate_mail_address s = Inr ()" by (simp add: accepted_iff)
next
  assume n: "of_char CHR ''@'' \<notin> set s"
  have "\<not> re_match email_regex s 0"
    unfolding re_match_email using n by auto
  then show "rejected s" by (simp add: validate_cases)
next
  assume "s = l @ str ''@'' @ d \<and> of_char CHR ''.'' \<notin> set d"
  then show "rejected s"
    using accepted_split [of s l d] rejected_or_accepted [of s] by (auto simp: str_def)
next
  assume "s = l @ str ''@'' @ d \<and> \<not> list_all local_chr l"
  then show "rejected s"
    using accepted_split [of s l d] rejected_or_accepted [of s] by (auto simp: str_def)
qed

theorem validate_mail_address_shape_witness:
  "canonical_shape (str ''first.last+tag@sub-dom.example.org'')
   \<and> validate_mail_address (str ''first.last+tag@sub-dom.example.org'') = Inr ()
   \<and> of_char CHR ''@'' \<notin> set (str ''ab.com'') \<and> rejected (str ''ab.com'')
   \<and> of_char CHR ''.'' \<notin> set (str ''bcom'') \<and> rejected (str ''a@bcom'')
   \<and> \<not> list_all local_chr (str ''a b'') \<and> rejected (str ''a b@c.com'')"
  using canonical_example
    validate_mail_address_shape [of "str ''first.last+tag@sub-dom.example.org''" "[]" "[]"]
    validate_mail_address_shape [of "str ''ab.com''" "[]" "[]"]
    validate_mail_address_shape [of "str ''a@bcom''" "str ''a''" "str ''bcom''"]
    validate_mail_address_shape [of "str ''a b@c.com''" "str ''a b''" "str ''c.com''"]
  by (simp add: str_def local_chr_def letter_def digit_def)

section \<open>The recipient builder\<close>

text \<open>
  C6: for every address that the validator accepts and every role (\<open>TO\<close> or \<open>CC\<close>),
  \<open>prepare_recipients\<close> returns a recipient whose role is the role passed in, whose
  e-mail address and display name are the input address, whose address type is \<open>SMTP\<close>,
  and whose display type and object type are the mail-user constants.
\<close>

theorem prepare_recipients_fields:
  "validate_mail_address a = Inr () \<Longrightarrow>
   \<exists>r. prepare_recipients a rtype = Inr r
     \<and> recipient_type r = Some rtype
     \<and> email_address r = Some a
     \<and> display_name r = Some a
     \<and> address_type r = Some (str ''SMTP'')
     \<and> display_type r = Some DisplayType_MAIL_USER
     \<and> object_type r = Some ObjectType_MAIL_USER"
  by (simp add: prepare_recipients_ok recipient_of_def)

theorem prepare_recipients_fields_witness:
  "validate_mail_address (str ''c@d.com'') = Inr ()
   \<and> (\<exists>r. prepare_recipients (str ''c@d.com'') CC = Inr r
     \<and> recipient_type r = Some CC
     \<and> email_address r = Some (str ''c@d.com'')
     \<and> display_name r = Some (str ''c@d.com'')
     \<and> address_type r = Some (str ''SMTP'')
     \<and> display_type r = Some DisplayType_MAIL_USER
     \<and> object_type r = Some ObjectType_MAIL_USER)"
proof -
  have v: "validate_mail_address (str ''c@d.com'') = Inr ()"
    by (simp add: validate_mail_address_def email_regex_def str_def in_class_def)
  from v prepare_recipients_fields [OF v, of CC] show ?thesis by simp
qed

section \<open>The file name\<close>

text \<open>
  C5: \<open>generate_msg_filename\<close> returns the time stamp, an underscore, the recipient tag,
  an underscore, the subject tag and \<open>.msg\<close>. For a list with a first element the
  recipient tag is the part of the first element before its first \<open>@\<close>, followed by
  \<open>+others\<close> exactly when the list has more than one element; for a string it is the
  part before the first \<open>@\<close> when the string holds one, and the string itself otherwise.
  The subject tag is the subject with every space replaced by an underscore, cut to its
  first 30 characters. At 2024-01-02 03:04:05, for the recipients \<open>a@x.com\<close>, \<open>b@y.com\<close> and
  the subject \<open>Hello World\<close>, the name is \<open>20240102_030405_a+others_Hello_World.msg\<close>.
\<close>

theorem generate_msg_filename_shape:
  "generate_msg_filename now (PyList (x # xs)) subj =
     Inr (strftime now @ str ''_''
          @ takeWhile (\<lambda>c. c \<noteq> of_char CHR ''@'') x @ (if xs \<noteq> [] then str ''+others'' else [])
          @ str ''_'' @ take 30 (map (\<lambda>c. if c = of_char CHR '' '' then of_char CHR ''_'' else c) subj)
          @ str ''.msg'')
   \<and> generate_msg_filename now (PyStr s) subj =
     Inr (strftime now @ str ''_''
          @ (if of_char CHR ''@'' \<in> set s then takeWhile (\<lambda>c. c \<noteq> of_char CHR ''@'') s else s)
          @ str ''_'' @ take 30 (map (\<lambda>c. if c = of_char CHR '' '' then of_char CHR ''_'' else c) subj)
          @ str ''.msg'')
   \<and> generate_msg_filename
       \<lparr>year = 2024, month = 1, day = 2, hour = 3, minute = 4, second = 5\<rparr>
       (PyList [str ''a@x.com'', str ''b@y.com'']) (str ''Hello World'')
     = Inr (str ''20240102_030405_a+others_Hello_World.msg'')"
  using filename_list [of now x xs subj] filename_str [of now s subj] filename_example
  by (simp cong: if_cong)

theorem generate_msg_filename_shape_witness:
  "generate_msg_filename
     \<lparr>year = 2025, month = 12, day = 31, hour = 23, minute = 59, second = 7\<rparr>
     (PyStr (str ''bob'')) (str ''A subject line that is longer than thirty characters'')
   = Inr (str ''20251231_235907_bob_A_subject_line_that_is_longer_.msg'')
   \<and> generate_msg_filename
     \<lparr>year = 2025, month = 12, day = 31, hour = 23, minute = 59, second = 7\<rparr>
     (PyList [str ''solo@x.org'']) (str ''Hi'')
   = Inr (str ''20251231_235907_solo_Hi.msg'')"
  using generate_msg_filename_shape
    [of "\<lparr>year = 2025, month = 12, day = 31, hour = 23, minute = 59, second = 7\<rparr>"
      "str ''solo@x.org''" "[]" "str ''Hi''" "str ''bob''"]
    generate_msg_filename_shape
    [of "\<lparr>year = 2025, month = 12, day = 31, hour = 23, minute = 59, second = 7\<rparr>"
      "str ''solo@x.org''" "[]" "str ''A subject line that is longer than thirty characters''"
      "str ''bob''"]
  by (simp add: strftime_def zero_pad_def decimal.simps str_def)

section \<open>The message assembler\<close>

text \<open>
  C1 (amended): for every \<open>cc\<close> that is neither a string nor a list (for example 123) and
  every valid \<open>to\<close>, subject and body, \<open>generate_mail\<close> raises the type error of \<open>cc\<close>
  without constructing any copy recipient, without setting any field of the message
  object and without saving a file; the primary recipients of \<open>to\<close> have been constructed
  by then, in input order.
\<close>

theorem generate_mail_cc_wrong_type:
  "\<not> is_str_or_list cc \<Longrightarrow> valid_addresses to \<Longrightarrow>
   \<exists>st. generate_mail now outcome to cc subj body = (Inl cc_type_error, st)
     \<and> v_recipient_cc st = []
     \<and> v_recipient_to st = map (recipient_of TO) (addresses to)
     \<and> v_message st = Message
     \<and> saved st = []"
  by (simp add: generate_mail_wrong_cc initial_state_def)

theorem generate_mail_cc_wrong_type_witness:
  "\<not> is_str_or_list (PyInt 123) \<and> valid_addresses (PyList [str ''a@b.com'', str ''c@d.com''])
   \<and> (\<exists>st. generate_mail \<lparr>year = 2024, month = 1, day = 2, hour = 3, minute = 4, second = 5\<rparr> None
          (PyList [str ''a@b.com'', str ''c@d.com'']) (PyInt 123) (str ''S'') (str ''hi'')
          = (Inl cc_type_error, st)
       \<and> v_recipient_cc st = []
       \<and> v_recipient_to st = [recipient_of TO (str ''a@b.com''), recipient_of TO (str ''c@d.com'')]
       \<and> v_message st = Message
       \<and> saved st = [])"
proof -
  have a: "\<not> is_str_or_list (PyInt 123)" by (simp add: is_str_or_list_def)
  have b: "valid_addresses (PyList [str ''a@b.com'', str ''c@d.com''])"
    using accepted_examples by (simp add: valid_addresses_def)
  from generate_mail_cc_wrong_type [OF a b] a b show ?thesis
    by (simp add: addresses_def)
qed

text \<open>
  C1 as stated fails for \<open>to = "a@b.com"\<close> and \<open>cc = 123\<close>: the type error is raised
  after the primary recipient has been constructed.
\<close>

theorem generate_mail_cc_wrong_type_counterexample:
  "fst (generate_mail \<lparr>year = 2024, month = 1, day = 2, hour = 3, minute = 4, second = 5\<rparr> None
          (PyStr (str ''a@b.com'')) (PyInt 123) (str ''S'') (str ''hi'')) = Inl cc_type_error
   \<and> constructed (snd (generate_mail
          \<lparr>year = 2024, month = 1, day = 2, hour = 3, minute = 4, second = 5\<rparr> None
          (PyStr (str ''a@b.com'')) (PyInt 123) (str ''S'') (str ''hi'')))
       = [recipient_of TO (str ''a@b.com'')]
   \<and> constructed (snd (generate_mail
          \<lparr>year = 2024, month = 1, day = 2, hour = 3, minute = 4, second = 5\<rparr> None
          (PyStr (str ''a@b.com'')) (PyInt 123) (str ''S'') (str ''hi''))) \<noteq> []"
proof -
  have a: "\<not> is_str_or_list (PyInt 123)" by (simp add: is_str_or_list_def)
  have b: "valid_addresses (PyStr (str ''a@b.com''))"
    using accepted_examples by (simp add: valid_addresses_def)
  show ?thesis
    by (simp add: generate_mail_wrong_cc [OF a b] constructed_def initial_state_def addresses_def)
qed

text \<open>
  C4: whenever a check on \<open>to\<close> or \<open>cc\<close> fails (an address that the validator rejects,
  or a value of the wrong type), \<open>generate_mail\<close> raises the error of that check while
  the message object is still as its constructor made it (no field set, no recipient
  appended) and no file has been saved. The body encoding itself never fails
  (\<open>encode_html_characters_eq\<close>, \<open>rtf_bytes\<close>).
\<close>

theorem generate_mail_fail_fast:
  "\<not> valid_addresses to \<or> \<not> valid_cc cc \<Longrightarrow>
   \<exists>e st. generate_mail now outcome to cc subj body = (Inl e, st) \<and> is_check_error e
     \<and> v_message st = Message \<and> recipients (v_message st) = [] \<and> saved st = []"
  using generate_mail_invalid [of to cc now outcome subj body] by (auto simp: Message_def)

theorem generate_mail_fail_fast_witness:
  "\<not> valid_addresses (PyList [str ''a@b.com'', str ''not an address''])
   \<and> \<not> valid_cc PyNone
   \<and> (\<exists>e st. generate_mail \<lparr>year = 2024, month = 1, day = 2, hour = 3, minute = 4, second = 5\<rparr> None
          (PyList [str ''a@b.com'', str ''not an address'']) (PyStr []) (str ''S'') (str ''hi'')
          = (Inl e, st) \<and> is_check_error e
       \<and> v_message st = Message \<and> recipients (v_message st) = [] \<and> saved st = [])
   \<and> (\<exists>e st. generate_mail \<lparr>year = 2024, month = 1, day = 2, hour = 3, minute = 4, second = 5\<rparr> None
          (PyStr (str ''a@b.com'')) PyNone (str ''S'') (str ''hi'')
          = (Inl e, st) \<and> is_check_error e
       \<and> v_message st = Message \<and> recipients (v_message st) = [] \<and> saved st = [])"
proof -
  have a: "\<not> valid_addresses (PyList [str ''a@b.com'', str ''not an address''])"
    by (simp add: valid_addresses_def accepted_def validate_mail_address_def email_regex_def
        str_def in_class_def)
  have b: "\<not> valid_cc PyNone" by (simp add: valid_cc_def valid_addresses_def)
  from a have a': "\<not> valid_addresses (PyList [str ''a@b.com'', str ''not an address''])
      \<or> \<not> valid_cc (PyStr [])" by simp
  from b have b': "\<not> valid_addresses (PyStr (str ''a@b.com'')) \<or> \<not> valid_cc PyNone" by simp
  from a b generate_mail_fail_fast [OF a'] generate_mail_fail_fast [OF b'] show ?thesis
    by blast
qed

text \<open>
  C7: for every valid \<open>to\<close> and every valid \<open>cc\<close> other than the empty string, the
  recipients of the message are the primary recipients in input order followed by the copy
  recipients in input order, and the display strings of the message are the input
  addresses, joined with \<open>; \<close> for a list. The call with \<open>a@b.com\<close> and the list
  \<open>c@d.com\<close>, \<open>e@f.com\<close> gives the message three recipients, one primary and then two
  copies.
\<close>

theorem generate_mail_recipient_order:
  "valid_addresses to \<Longrightarrow> valid_cc cc \<Longrightarrow> cc \<noteq> PyStr [] \<Longrightarrow>
   recipients (v_message (snd (generate_mail now outcome to cc subj body)))
     = map (recipient_of TO) (addresses to) @ map (recipient_of CC) (addresses cc)
   \<and> display_to (v_message (snd (generate_mail now outcome to cc subj body))) = Some (display_string to)
   \<and> display_cc (v_message (snd (generate_mail now outcome to cc subj body))) = Some (display_string cc)
   \<and> addresses (PyList xs) = xs \<and> addresses (PyStr s) = [s]
   \<and> display_string (PyList xs) = join (str ''; '') xs \<and> display_string (PyStr s) = s
   \<and> recipients (v_message (snd (generate_mail now outcome
         (PyStr (str ''a@b.com'')) (PyList [str ''c@d.com'', str ''e@f.com'']) subj body)))
     = [recipient_of TO (str ''a@b.com''), recipient_of CC (str ''c@d.com''),
        recipient_of CC (str ''e@f.com'')]"
proof -
  assume v: "valid_addresses to" "valid_cc cc" and n: "cc \<noteq> PyStr []"
  have a: "valid_addresses (PyStr (str ''a@b.com''))"
    using accepted_examples by (simp add: valid_addresses_def)
  have b: "valid_cc (PyList [str ''c@d.com'', str ''e@f.com''])"
    using accepted_examples by (simp add: valid_cc_def valid_addresses_def)
  have "recipients (v_message (snd (generate_mail now outcome
         (PyStr (str ''a@b.com'')) (PyList [str ''c@d.com'', str ''e@f.com'']) subj body)))
     = [recipient_of TO (str ''a@b.com''), recipient_of CC (str ''c@d.com''),
        recipient_of CC (str ''e@f.com'')]"
    by (simp add: generate_mail_valid_state [OF a b] assembled_def cc_addresses_def
        addresses_def)
  with v n show ?thesis
    by (simp add: generate_mail_valid_state [OF v] assembled_def cc_addresses_def
        cc_display_string_def addresses_def display_string_def)
qed

theorem generate_mail_recipient_order_witness:
  "valid_addresses (PyStr (str ''a@b.com''))
   \<and> valid_cc (PyList [str ''c@d.com'', str ''e@f.com''])
   \<and> PyList [str ''c@d.com'', str ''e@f.com''] \<noteq> PyStr []
   \<and> recipients (v_message (snd (generate_mail
        \<lparr>year = 2024, month = 1, day = 2, hour = 3, minute = 4, second = 5\<rparr> None
        (PyStr (str ''a@b.com'')) (PyList [str ''c@d.com'', str ''e@f.com''])
        (str ''Status Update'') (str ''Line1'' @ [10] @ str ''Line2''))))
     = [recipient_of TO (str ''a@b.com''), recipient_of CC (str ''c@d.com''),
        recipient_of CC (str ''e@f.com'')]
   \<and> display_cc (v_message (snd (generate_mail
        \<lparr>year = 2024, month = 1, day = 2, hour = 3, minute = 4, second = 5\<rparr> None
        (PyStr (str ''a@b.com'')) (PyList [str ''c@d.com'', str ''e@f.com''])
        (str ''Status Update'') (str ''Line1'' @ [10] @ str ''Line2''))))
     = Some (str ''c@d.com; e@f.com'')"
proof -
  have a: "valid_addresses (PyStr (str ''a@b.com''))"
    using accepted_examples by (simp add: valid_addresses_def)
  have b: "valid_cc (PyList [str ''c@d.com'', str ''e@f.com''])"
    using accepted_examples by (simp add: valid_cc_def valid_addresses_def)
  have c: "PyList [str ''c@d.com'', str ''e@f.com''] \<noteq> PyStr []" by simp
  from a b generate_mail_recipient_order [OF a b c] show ?thesis
    by (simp add: addresses_def display_string_def str_def)
qed

text \<open>
  C8: for every accepted address \<open>to\<close> given as a string and \<open>cc\<close> the empty string,
  \<open>generate_mail\<close> raises no validation error and no type error: it reaches
  \<open>message.save\<close>, returns when that call returns, and raises only what that call raises.
  In both cases it has built exactly one primary recipient and no copy recipient, the
  message holds that one recipient, and \<open>display_cc\<close> is the empty string.
\<close>

theorem generate_mail_no_copies:
  "accepted s \<Longrightarrow>
   \<exists>st. generate_mail now outcome (PyStr s) (PyStr []) subj body
          = (case outcome of None \<Rightarrow> Inr () | Some m \<Rightarrow> Inl (OSError m), st)
     \<and> v_recipient_to st = [recipient_of TO s]
     \<and> v_recipient_cc st = []
     \<and> recipients (v_message st) = [recipient_of TO s]
     \<and> display_cc (v_message st) = Some []
     \<and> v_display_cc st = []"
proof -
  assume "accepted s"
  then have "valid_addresses (PyStr s)" "valid_cc (PyStr [])"
    by (simp_all add: valid_addresses_def valid_cc_def)
  from generate_mail_valid [OF this, of now outcome subj body] show ?thesis
    by (cases outcome)
      (simp_all add: filename_str save_def assembled_state_def assembled_def addresses_def
        cc_addresses_def cc_display_string_def)
qed

theorem generate_mail_no_copies_witness:
  "accepted (str ''u@v.com'')
   \<and> (\<exists>st. generate_mail \<lparr>year = 2024, month = 1, day = 2, hour = 3, minute = 4, second = 5\<rparr>
          None (PyStr (str ''u@v.com'')) (PyStr []) (str ''S'') (str ''hi'') = (Inr (), st)
     \<and> v_recipient_to st = [recipient_of TO (str ''u@v.com'')]
     \<and> v_recipient_cc st = []
     \<and> recipients (v_message st) = [recipient_of TO (str ''u@v.com'')]
     \<and> display_cc (v_message st) = Some []
     \<and> v_display_cc st = [])
   \<and> (\<exists>st. generate_mail \<lparr>year = 2024, month = 1, day = 2, hour = 3, minute = 4, second = 5\<rparr>
          (Some (str ''No such file or directory'')) (PyStr (str ''u@v.com'')) (PyStr [])
          (str ''Q1/Q2'') (str ''hi'')
        = (Inl (OSError (str ''No such file or directory'')), st)
     \<and> v_recipient_to st = [recipient_of TO (str ''u@v.com'')]
     \<and> v_recipient_cc st = []
     \<and> recipients (v_message st) = [recipient_of TO (str ''u@v.com'')]
     \<and> display_cc (v_message st) = Some []
     \<and> v_display_cc st = [])"
  using accepted_examples(4)
    generate_mail_no_copies [OF accepted_examples(4),
      of "\<lparr>year = 2024, month = 1, day = 2, hour = 3, minute = 4, second = 5\<rparr>"
        None "str ''S''" "str ''hi''"]
    generate_mail_no_copies [OF accepted_examples(4),
      of "\<lparr>year = 2024, month = 1, day = 2, hour = 3, minute = 4, second = 5\<rparr>"
        "Some (str ''No such file or directory'')" "str ''Q1/Q2''" "str ''hi''"]
  by simp

text \<open>
  C9: for valid \<open>to\<close> and \<open>cc\<close>, the RTF body of the message is the UTF-8 encoding of
  the fixed preamble, the HTML encoding of the body and a closing brace; the encoding
  never fails, and the bytes are those characters. For the body \<open>hi\<close> it is the encoding of
  the string \<open>{\rtf1\ansi\ansicpg1252\fromhtml1 \htmlrtf0 hi}\<close>.
\<close>

theorem generate_mail_rtf_body:
  "valid_addresses to \<Longrightarrow> valid_cc cc \<Longrightarrow>
   (\<exists>html. encode_html_characters body = Inr html
      \<and> encode_utf8 (str rtf_preamble @ html @ str ''}'')
          = Inr (rtf_preamble @ map char_of html @ ''}'')
      \<and> body_rtf (v_message (snd (generate_mail now outcome to cc subj body)))
          = Some (rtf_preamble @ map char_of html @ ''}''))
   \<and> body_rtf (v_message (snd (generate_mail now outcome to cc subj (str ''hi''))))
       = Some (rtf_preamble @ ''hi}'')
   \<and> encode_utf8 (str (rtf_preamble @ ''hi}'')) = Inr (rtf_preamble @ ''hi}'')
   \<and> rtf_preamble = ''{'' @ [CHR 0x5C] @ ''rtf1'' @ [CHR 0x5C] @ ''ansi'' @ [CHR 0x5C]
       @ ''ansicpg1252'' @ [CHR 0x5C] @ ''fromhtml1 '' @ [CHR 0x5C] @ ''htmlrtf0 ''"
proof -
  assume v: "valid_addresses to" "valid_cc cc"
  have 1: "encode_html_characters body = Inr (concat (map html_char body))"
    by (rule encode_html_characters_eq)
  have 2: "encode_utf8 (str rtf_preamble @ concat (map html_char body) @ str ''}'')
      = Inr (rtf_preamble @ map char_of (concat (map html_char body)) @ ''}'')"
    by (rule rtf_bytes [OF ascii_html])
  have 3: "body_rtf (v_message (snd (generate_mail now outcome to cc subj b)))
      = Some (rtf_preamble @ map char_of (concat (map html_char b)) @ ''}'')" for b
    by (simp add: generate_mail_valid_state [OF v] assembled_def)
  have "concat (map html_char (str ''hi'')) = str ''hi''"
    by (simp add: html_char_def str_def)
  then have 4: "map char_of (concat (map html_char (str ''hi''))) = ''hi''"
    by (simp only: map_char_of_str)
  have "ascii (str (rtf_preamble @ ''hi}''))"
    by (simp add: ascii_def str_def rtf_preamble_def backslash_def)
  then have 5: "encode_utf8 (str (rtf_preamble @ ''hi}'')) = Inr (rtf_preamble @ ''hi}'')"
    by (simp only: encode_utf8_ascii map_char_of_str)
  have 6: "rtf_preamble = ''{'' @ [CHR 0x5C] @ ''rtf1'' @ [CHR 0x5C] @ ''ansi'' @ [CHR 0x5C]
       @ ''ansicpg1252'' @ [CHR 0x5C] @ ''fromhtml1 '' @ [CHR 0x5C] @ ''htmlrtf0 ''"
    by (simp add: rtf_preamble_def backslash_def)
  from 1 2 3 [of body] 3 [of "str ''hi''"] 4 5 6 show ?thesis
    by (intro conjI exI [of _ "concat (map html_char body)"]) simp_all
qed

theorem generate_mail_rtf_body_witness:
  "valid_addresses (PyStr (str ''a@b.com'')) \<and> valid_cc (PyStr [])
   \<and> body_rtf (v_message (snd (generate_mail
        \<lparr>year = 2024, month = 1, day = 2, hour = 3, minute = 4, second = 5\<rparr> None
        (PyStr (str ''a@b.com'')) (PyStr []) (str ''S'') (str ''hi''))))
     = Some (''{'' @ [CHR 0x5C] @ ''rtf1'' @ [CHR 0x5C] @ ''ansi'' @ [CHR 0x5C]
       @ ''ansicpg1252'' @ [CHR 0x5C] @ ''fromhtml1 '' @ [CHR 0x5C] @ ''htmlrtf0 hi}'')"
proof -
  have a: "valid_addresses (PyStr (str ''a@b.com''))"
    using accepted_examples by (simp add: valid_addresses_def)
  have b: "valid_cc (PyStr [])" by (simp add: valid_cc_def)
  from a b generate_mail_rtf_body [OF a b,
      of "str ''hi''" "\<lparr>year = 2024, month = 1, day = 2, hour = 3, minute = 4, second = 5\<rparr>"
        None "str ''S''"]
  show ?thesis by simp
qed

text \<open>
  C10 (amended): for \<open>to\<close> the empty list and every \<open>cc\<close>, subject and body,
  \<open>generate_mail\<close> builds no primary recipient and an empty display string, always fails,
  and saves no file; when \<open>cc\<close> is valid (the empty string, an accepted address or a list
  of accepted addresses) the failure is the index error of \<open>generate_msg_filename\<close>, and
  for any other \<open>cc\<close> the call fails earlier, with the error of the check on \<open>cc\<close> and the
  message object still as its constructor made it.
\<close>

theorem generate_mail_empty_to:
  "\<exists>e st. generate_mail now outcome (PyList []) cc subj body = (Inl e, st)
     \<and> v_recipient_to st = [] \<and> v_display_to st = [] \<and> saved st = []
     \<and> (valid_cc cc \<longrightarrow> e = IndexError (str ''list index out of range''))
     \<and> (\<not> valid_cc cc \<longrightarrow> is_check_error e \<and> v_message st = Message)"
  using generate_mail_empty_list [of now outcome cc subj body] by (auto split: if_splits)

theorem generate_mail_empty_to_witness:
  "valid_cc (PyStr (str ''c@d.com''))
   \<and> (\<exists>st. generate_mail \<lparr>year = 2024, month = 1, day = 2, hour = 3, minute = 4, second = 5\<rparr>
          None (PyList []) (PyStr (str ''c@d.com'')) (str ''S'') (str ''hi'')
        = (Inl (IndexError (str ''list index out of range'')), st)
     \<and> v_recipient_to st = [] \<and> v_display_to st = [] \<and> saved st = [])
   \<and> \<not> valid_cc (PyStr (str ''not an address''))
   \<and> (\<exists>e st. generate_mail \<lparr>year = 2024, month = 1, day = 2, hour = 3, minute = 4, second = 5\<rparr>
          None (PyList []) (PyStr (str ''not an address'')) (str ''S'') (str ''hi'')
        = (Inl e, st) \<and> is_check_error e \<and> v_message st = Message
     \<and> v_recipient_to st = [] \<and> v_display_to st = [] \<and> saved st = [])"
proof -
  have a: "valid_cc (PyStr (str ''c@d.com''))"
    using accepted_examples by (simp add: valid_cc_def valid_addresses_def)
  have b: "\<not> valid_cc (PyStr (str ''not an address''))"
    by (simp add: valid_cc_def valid_addresses_def accepted_def validate_mail_address_def
        email_regex_def str_def in_class_def)
  from a b generate_mail_empty_to
    [of "\<lparr>year = 2024, month = 1, day = 2, hour = 3, minute = 4, second = 5\<rparr>"
      None "PyStr (str ''c@d.com'')" "str ''S''" "str ''hi''"]
    generate_mail_empty_to
    [of "\<lparr>year = 2024, month = 1, day = 2, hour = 3, minute = 4, second = 5\<rparr>"
      None "PyStr (str ''not an address'')" "str ''S''" "str ''hi''"]
  show ?thesis by auto
qed

text \<open>
  C10 as stated fails for \<open>cc = 123\<close>: the call fails with the type error of \<open>cc\<close>,
  before \<open>generate_msg_filename\<close> is reached.
\<close>

theorem generate_mail_empty_to_counterexample:
  "fst (generate_mail \<lparr>year = 2024, month = 1, day = 2, hour = 3, minute = 4, second = 5\<rparr> None
          (PyList []) (PyInt 123) (str ''S'') (str ''hi'')) = Inl cc_type_error
   \<and> cc_type_error \<noteq> IndexError (str ''list index out of range'')"
proof -
  have a: "\<not> is_str_or_list (PyInt 123)" by (simp add: is_str_or_list_def)
  have b: "valid_addresses (PyList [])" by (simp add: valid_addresses_def)
  show ?thesis
    by (simp add: generate_mail_wrong_cc [OF a b] cc_type_error_def)
qed

end
